theory Spec2Isabelle
  imports Complex_Main "HOL-Library.Sublist"
begin

section \<open>QR code generator component: data model\<close>

text \<open>
  The component \<open>QRCodeGenerator\<close> keeps its state in React hooks and talks to the browser
  (URL parser, image loading, canvas, local storage, clock) and to the QR encoding library.
  The model passes the component state explicitly and takes everything the browser decides
  as a field of an environment record.

  JavaScript strings are modelled as \<open>string\<close>; \<open>null\<close> results as \<open>None\<close>; a rejected
  promise or a thrown exception as \<open>Inl\<close> of a sum.
\<close>

subsection \<open>History entries and the persisted record\<close>

text \<open>\<open>interface RecentUrl { url: string; timestamp: number }\<close>\<close>

record RecentUrl =
  url :: string
  timestamp :: int

text \<open>
  The item stored under the key \<open>qr-recent-urls\<close>. \<open>Entries xs\<close> stands for the text
  \<open>JSON.stringify(xs)\<close>, which \<open>JSON.parse\<close> maps back to \<open>xs\<close>; \<open>Unparsable\<close> stands
  for a text on which \<open>JSON.parse\<close> throws.
\<close>

datatype persisted = Entries "RecentUrl list" | Unparsable

subsection \<open>Toasts\<close>

datatype variant = Default | Destructive

record toast_msg =
  title :: string
  description :: string
  variant :: variant

subsection \<open>Images, canvas and what the browser decides\<close>

text \<open>The parts of a parsed \<open>URL\<close> object that the component reads.\<close>

record url_parts =
  protocol :: string
  hostname :: string

text \<open>
  The outcome of assigning \<open>img.src\<close> and waiting: \<open>onload\<close> fired (with the image's
  width and height), \<open>onerror\<close> fired, the timer fired first, or something threw.
\<close>

datatype load_outcome = Loaded nat nat | LoadError | TimedOut | Raised

record image =
  img_src :: string
  img_width :: nat
  img_height :: nat

text \<open>One entry for each \<open>img.src = ...\<close>: source, \<open>crossOrigin = 'anonymous'\<close> set, timeout in ms.\<close>

datatype image_request = ImageRequest string bool nat

text \<open>
  The drawing calls made on the 2D context, in order. \<open>Arc x y r\<close> is
  \<open>ctx.arc(x, y, r, 0, 2 * Math.PI)\<close>, the only kind of arc the component draws.
\<close>

datatype draw_op =
    DrawImage image rat rat
  | DrawImageScaled image rat rat rat rat
  | FillStyle string
  | StrokeStyle string
  | LineWidth rat
  | BeginPath
  | Arc rat rat rat
  | Fill
  | Stroke
  | Save
  | Clip
  | Restore

record canvas =
  width :: nat
  height :: nat
  ops :: "draw_op list"

datatype canvas_support = NoDocument | CreateThrows | NoContext | CanvasOK

datatype error = Error string

record env =
  parseURL :: "string \<Rightarrow> url_parts option"
  loadImage :: "string \<Rightarrow> bool \<Rightarrow> nat \<Rightarrow> load_outcome"
  canvasSupport :: canvas_support
  toDataURL :: "canvas \<Rightarrow> string option"
  qrToDataURL :: "string \<Rightarrow> string \<Rightarrow> string option"
  dateNow :: int

subsection \<open>Component state\<close>

text \<open>
  The \<open>useState\<close> fields the modelled functions read or write (the input text \<open>url\<close> is
  called \<open>urlText\<close> here, since \<open>url\<close> is the field of a history entry), the local-storage
  item, the toasts shown and the favicon test images requested so far.
\<close>

record state =
  urlText :: string
  qrCodeDataUrl :: string
  isGenerating :: bool
  qrSize :: string
  recentUrls :: "RecentUrl list"
  logoEnabled :: bool
  logoFile :: "string option"
  logoPreview :: string
  autoDetectLogo :: bool
  detectedFavicon :: string
  isDetectingLogo :: bool
  storage :: "persisted option"
  toasts :: "toast_msg list"
  probes :: "image_request list"

definition toast :: "string \<Rightarrow> string \<Rightarrow> variant \<Rightarrow> state \<Rightarrow> state" where
  "toast t d v s = s\<lparr>toasts := toasts s @ [\<lparr>title = t, description = d, variant = v\<rparr>]\<rparr>"

text \<open>The state after the \<open>useState\<close> initialisers, with the local storage found at start.\<close>

definition initial :: "persisted option \<Rightarrow> state" where
  "initial st =
     \<lparr>urlText = [], qrCodeDataUrl = [], isGenerating = False, qrSize = ''256'',
      recentUrls = [], logoEnabled = False, logoFile = None, logoPreview = [],
      autoDetectLogo = True, detectedFavicon = [], isDetectingLogo = False,
      storage = st, toasts = [], probes = []\<rparr>"

section \<open>History store\<close>

text \<open>
  \<open>addToRecentUrls\<close>: the new entry, then the old entries with another URL, cut to five;
  the list is set and persisted. The clock reading \<open>Date.now()\<close> is the argument \<open>now\<close>.
\<close>

definition addToRecentUrls :: "int \<Rightarrow> string \<Rightarrow> state \<Rightarrow> state" where
  "addToRecentUrls now newUrl s =
     (let updated = take 5 (\<lparr>url = newUrl, timestamp = now\<rparr>
                            # filter (\<lambda>item. url item \<noteq> newUrl) (recentUrls s))
      in s\<lparr>recentUrls := updated, storage := Some (Entries updated)\<rparr>)"

definition clearRecentUrls :: "state \<Rightarrow> state" where
  "clearRecentUrls s =
     toast ''History Cleared'' ''Recent URLs have been cleared'' Default
       (s\<lparr>recentUrls := [], storage := None\<rparr>)"

text \<open>The mount effect: read the item; set the list if it parses, else leave it.\<close>

definition loadRecentUrls :: "state \<Rightarrow> state" where
  "loadRecentUrls s =
     (case storage s of
        None \<Rightarrow> s
      | Some Unparsable \<Rightarrow> s
      | Some (Entries xs) \<Rightarrow> s\<lparr>recentUrls := xs\<rparr>)"

text \<open>
  A sequence of history operations. \<open>Load\<close> is a (re)load of the page: the component starts
  from its initial state with the storage as it was left, and the mount effect runs.
\<close>

datatype hist_op = Add string int | Clear | Load

fun hist_step :: "hist_op \<Rightarrow> state \<Rightarrow> state" where
  "hist_step (Add u t) s = addToRecentUrls t u s"
| "hist_step Clear s = clearRecentUrls s"
| "hist_step Load s = loadRecentUrls (initial (storage s))"

definition run :: "hist_op list \<Rightarrow> state \<Rightarrow> state" where
  "run os s = foldl (\<lambda>s' opn. hist_step opn s') s os"

text \<open>The URLs added since the last \<open>Clear\<close>, oldest first.\<close>

fun added :: "hist_op list \<Rightarrow> string list \<Rightarrow> string list" where
  "added [] acc = acc"
| "added (Add u t # os) acc = added os (acc @ [u])"
| "added (Clear # os) acc = added os []"
| "added (Load # os) acc = added os acc"

text \<open>The clock readings of a sequence of operations never go back from \<open>t\<close>.\<close>

fun clock_mono :: "int \<Rightarrow> hist_op list \<Rightarrow> bool" where
  "clock_mono t [] = True"
| "clock_mono t (Add u t' # os) = (t \<le> t' \<and> clock_mono t' os)"
| "clock_mono t (Clear # os) = clock_mono t os"
| "clock_mono t (Load # os) = clock_mono t os"

section \<open>URL validation\<close>

text \<open>\<open>isValidUrl\<close>: \<open>new URL(string)\<close> does not throw.\<close>

definition isValidUrl :: "env \<Rightarrow> string \<Rightarrow> bool" where
  "isValidUrl env string = (case parseURL env string of Some _ \<Rightarrow> True | None \<Rightarrow> False)"

text \<open>
  \<open>String.prototype.trim\<close> on the code units below 256: tab, line feed, vertical tab,
  form feed, carriage return, space and no-break space are removed from both ends.
\<close>

definition isWhiteSpace :: "char \<Rightarrow> bool" where
  "isWhiteSpace c = (of_char c \<in> {9, 10, 11, 12, 13, 32, 160 :: nat})"

definition trim :: "string \<Rightarrow> string" where
  "trim s = rev (dropWhile isWhiteSpace (rev (dropWhile isWhiteSpace s)))"

definition startsWith :: "string \<Rightarrow> string \<Rightarrow> bool" where
  "startsWith s p = (take (length p) s = p)"

text \<open>JavaScript truthiness of an optional string argument: neither \<open>undefined\<close> nor empty.\<close>

fun truthy :: "string option \<Rightarrow> bool" where
  "truthy None = False"
| "truthy (Some u) = (u \<noteq> [])"

section \<open>Favicon resolver\<close>

definition googleFavicon :: "string \<Rightarrow> string \<Rightarrow> string" where
  "googleFavicon domain sz = ''https://www.google.com/s2/favicons?domain='' @ domain @ ''&sz='' @ sz"

text \<open>The array \<open>faviconSources\<close>, in the order of the source.\<close>

definition faviconSources :: "url_parts \<Rightarrow> string list" where
  "faviconSources urlObj =
     (let domain = hostname urlObj in
      [googleFavicon domain ''64'',
       ''https://icons.duckduckgo.com/ip3/'' @ domain @ ''.ico'',
       googleFavicon domain ''32'',
       protocol urlObj @ ''//'' @ domain @ ''/favicon.ico'',
       protocol urlObj @ ''//'' @ domain @ ''/favicon.png'',
       protocol urlObj @ ''//'' @ domain @ ''/apple-touch-icon.png''])"

text \<open>
  The promise \<open>isAccessible\<close>: the candidate is requested as a test image with
  \<open>crossOrigin = 'anonymous'\<close> and a 3000 ms timer; it resolves to \<open>true\<close> on \<open>onload\<close> and to
  \<open>false\<close> on \<open>onerror\<close> or when the timer fires. \<open>Inl\<close> is an exception, which the
  \<open>catch\<close> inside the loop turns into \<open>continue\<close>.
\<close>

definition isAccessible :: "env \<Rightarrow> string \<Rightarrow> error + bool" where
  "isAccessible env faviconUrl =
     (case loadImage env faviconUrl True 3000 of
        Loaded w h \<Rightarrow> Inr True
      | LoadError \<Rightarrow> Inr False
      | TimedOut \<Rightarrow> Inr False
      | Raised \<Rightarrow> Inl (Error ''favicon test raised''))"

text \<open>
  The \<open>for\<close> loop over the candidates: the first accessible one is stored in
  \<open>detectedFavicon\<close> and returned. \<open>None\<close> means the loop ran off the end.
\<close>

fun probeLoop :: "env \<Rightarrow> string list \<Rightarrow> state \<Rightarrow> string option \<times> state" where
  "probeLoop env [] s = (None, s)"
| "probeLoop env (faviconUrl # rest) s =
     (let s1 = s\<lparr>probes := probes s @ [ImageRequest faviconUrl True 3000]\<rparr> in
      case isAccessible env faviconUrl of
        Inr True \<Rightarrow> (Some faviconUrl, s1\<lparr>detectedFavicon := faviconUrl\<rparr>)
      | Inr False \<Rightarrow> probeLoop env rest s1
      | Inl error \<Rightarrow> probeLoop env rest s1)"

definition detectFavicon :: "env \<Rightarrow> string \<Rightarrow> state \<Rightarrow> string option \<times> state" where
  "detectFavicon env urlString s =
     (if \<not> isValidUrl env urlString then (None, s)
      else
        (let s1 = s\<lparr>isDetectingLogo := True\<rparr> in
         case parseURL env urlString of
           None \<Rightarrow> (None, s1\<lparr>detectedFavicon := [], isDetectingLogo := False\<rparr>)
         | Some urlObj \<Rightarrow>
             (case probeLoop env (faviconSources urlObj) s1 of
                (Some faviconUrl, s2) \<Rightarrow> (Some faviconUrl, s2\<lparr>isDetectingLogo := False\<rparr>)
              | (None, s2) \<Rightarrow>
                  (let fallbackFavicon = googleFavicon (hostname urlObj) ''64'' in
                   (Some fallbackFavicon,
                    s2\<lparr>detectedFavicon := fallbackFavicon, isDetectingLogo := False\<rparr>)))))"

section \<open>Image compositor\<close>

text \<open>The two image promises: the base QR image (10 s timer) and the logo (8 s timer).\<close>

definition loadQrImage :: "env \<Rightarrow> string \<Rightarrow> error + image" where
  "loadQrImage env qrDataUrl =
     (case loadImage env qrDataUrl (\<not> startsWith qrDataUrl ''data:'') 10000 of
        Loaded w h \<Rightarrow> Inr \<lparr>img_src = qrDataUrl, img_width = w, img_height = h\<rparr>
      | LoadError \<Rightarrow> Inl (Error ''Failed to load QR image'')
      | TimedOut \<Rightarrow> Inl (Error ''QR image load timeout'')
      | Raised \<Rightarrow> Inl (Error ''QR image load raised''))"

definition loadLogoImage :: "env \<Rightarrow> string \<Rightarrow> error + image" where
  "loadLogoImage env logoUrl =
     (case loadImage env logoUrl (\<not> startsWith logoUrl ''data:'') 8000 of
        Loaded w h \<Rightarrow> Inr \<lparr>img_src = logoUrl, img_width = w, img_height = h\<rparr>
      | LoadError \<Rightarrow> Inl (Error ''Failed to load logo'')
      | TimedOut \<Rightarrow> Inl (Error ''Logo load timeout'')
      | Raised \<Rightarrow> Inl (Error ''Logo load raised''))"

definition draw :: "draw_op list \<Rightarrow> canvas \<Rightarrow> canvas" where
  "draw new c = c\<lparr>ops := ops c @ new\<rparr>"

text \<open>The drawing of the logo: white disc, grey border, clipped logo.\<close>

definition drawLogo :: "image \<Rightarrow> image \<Rightarrow> canvas \<Rightarrow> canvas" where
  "drawLogo qrImage logoImage c =
     (let logoSize = of_nat (min (img_width qrImage) (img_height qrImage)) * (1 / 4);
          centerX = of_nat (img_width qrImage) / 2;
          centerY = of_nat (img_height qrImage) / 2;
          logoX = centerX - logoSize / 2;
          logoY = centerY - logoSize / 2;
          backgroundRadius = logoSize / 2 + 8
      in draw [FillStyle ''white'', BeginPath, Arc centerX centerY backgroundRadius, Fill,
               StrokeStyle ''#e5e7eb'', LineWidth 2, BeginPath,
               Arc centerX centerY backgroundRadius, Stroke,
               Save, BeginPath, Arc centerX centerY (logoSize / 2), Clip,
               DrawImageScaled logoImage logoX logoY logoSize logoSize, Restore] c)"

text \<open>
  The body of the outer \<open>try\<close>. The inner \<open>try\<close> around the logo swallows a failed logo
  load and goes on to the export.
\<close>

definition compose :: "env \<Rightarrow> string \<Rightarrow> string \<Rightarrow> error + string" where
  "compose env qrDataUrl logoUrl =
     (case canvasSupport env of
        NoDocument \<Rightarrow> Inl (Error ''Canvas not supported'')
      | CreateThrows \<Rightarrow> Inl (Error ''createElement raised'')
      | NoContext \<Rightarrow> Inl (Error ''Canvas context not available'')
      | CanvasOK \<Rightarrow>
          (case loadQrImage env qrDataUrl of
             Inl e \<Rightarrow> Inl e
           | Inr qrImage \<Rightarrow>
               (let c0 = \<lparr>width = img_width qrImage, height = img_height qrImage, ops = []\<rparr>;
                    c1 = draw [DrawImage qrImage 0 0] c0;
                    c2 = (case loadLogoImage env logoUrl of
                            Inl logoError \<Rightarrow> c1
                          | Inr logoImage \<Rightarrow> drawLogo qrImage logoImage c1)
                in case toDataURL env c2 of
                     None \<Rightarrow> Inl (Error ''toDataURL raised'')
                   | Some finalDataUrl \<Rightarrow> Inr finalDataUrl)))"

text \<open>\<open>createQRWithLogo\<close>: the outer \<open>catch\<close> returns the original QR data URL.\<close>

definition createQRWithLogo :: "env \<Rightarrow> string \<Rightarrow> string \<Rightarrow> error + string" where
  "createQRWithLogo env qrDataUrl logoUrl =
     (case compose env qrDataUrl logoUrl of
        Inl e \<Rightarrow> Inr qrDataUrl
      | Inr finalDataUrl \<Rightarrow> Inr finalDataUrl)"

section \<open>Generation\<close>

text \<open>
  The body of \<open>if (logoEnabled)\<close> in \<open>generateQRCode\<close>: choose the logo source (the uploaded
  image before the detected favicon), composite, and report.
\<close>

definition integrateLogo :: "env \<Rightarrow> string \<Rightarrow> string \<Rightarrow> state \<Rightarrow> string \<times> state" where
  "integrateLogo env targetUrl qrDataUrl s =
     (let (logoUrl, s1) =
            (if logoFile s \<noteq> None \<and> logoPreview s \<noteq> [] then (logoPreview s, s)
             else if autoDetectLogo s then
               (case detectFavicon env targetUrl s of
                  (favicon, s') \<Rightarrow> (if truthy favicon then the favicon else [], s'))
             else ([], s))
      in if logoUrl \<noteq> [] then
           (case createQRWithLogo env qrDataUrl logoUrl of
              Inr finalQrDataUrl \<Rightarrow>
                (if finalQrDataUrl = qrDataUrl then
                   (finalQrDataUrl,
                    toast ''Logo Integration Issue''
                      ''Logo could not be integrated, using QR code without logo'' Destructive s1)
                 else
                   (finalQrDataUrl,
                    toast ''Success!'' ''QR code with logo generated successfully'' Default s1))
            | Inl e \<Rightarrow>
                (qrDataUrl,
                 toast ''Logo Integration Failed'' ''QR code generated without logo'' Destructive s1))
         else
           (qrDataUrl,
            toast ''No Logo Found''
              ''Could not detect or load logo, generating QR code without logo'' Destructive s1))"

definition generateQRCode :: "env \<Rightarrow> string option \<Rightarrow> state \<Rightarrow> state" where
  "generateQRCode env inputUrl s =
     (let targetUrl = (if truthy inputUrl then the inputUrl else urlText s) in
      if trim targetUrl = [] then
        toast ''URL Required'' ''Please enter a URL to generate QR code'' Destructive s
      else if \<not> isValidUrl env targetUrl then
        toast ''Invalid URL'' ''Please enter a valid URL (e.g., https://example.com)'' Destructive s
      else
        (let s1 = s\<lparr>isGenerating := True\<rparr> in
         case qrToDataURL env targetUrl (qrSize s) of
           None \<Rightarrow>
             (toast ''Generation Failed'' ''Failed to generate QR code. Please try again.''
                Destructive s1)\<lparr>isGenerating := False\<rparr>
         | Some qrDataUrl \<Rightarrow>
             (let (finalQrDataUrl, s2) =
                    (if logoEnabled s then integrateLogo env targetUrl qrDataUrl s1
                     else (qrDataUrl, s1));
                  s3 = s2\<lparr>qrCodeDataUrl := finalQrDataUrl\<rparr>;
                  s4 = (if \<not> truthy inputUrl then addToRecentUrls (dateNow env) targetUrl s3
                        else s3);
                  s5 = toast ''QR Code Generated!''
                         (if logoEnabled s then ''QR code with logo is ready!''
                          else ''Your QR code is ready to download or share'') Default s4
              in s5\<lparr>isGenerating := False\<rparr>)))"

section \<open>Properties stated about the code\<close>

subsection \<open>History\<close>

text \<open>At most five entries, no URL twice.\<close>

definition hist_ok :: "RecentUrl list \<Rightarrow> bool" where
  "hist_ok xs = (length xs \<le> 5 \<and> distinct (map url xs))"

definition store_ok :: "persisted option \<Rightarrow> bool" where
  "store_ok st =
     (case st of Some (Entries xs) \<Rightarrow> hist_ok xs | Some Unparsable \<Rightarrow> True | None \<Rightarrow> True)"

text \<open>Timestamps fall from the front to the back, and none is later than the clock \<open>t\<close>.\<close>

definition newest_first :: "int \<Rightarrow> RecentUrl list \<Rightarrow> bool" where
  "newest_first t xs = sorted_wrt (\<ge>) (t # map timestamp xs)"

definition store_newest_first :: "int \<Rightarrow> persisted option \<Rightarrow> bool" where
  "store_newest_first t st =
     (case st of Some (Entries xs) \<Rightarrow> newest_first t xs | Some Unparsable \<Rightarrow> True | None \<Rightarrow> True)"

text \<open>The list on screen is the list in storage.\<close>

definition synced :: "state \<Rightarrow> bool" where
  "synced s =
     (case storage s of
        None \<Rightarrow> recentUrls s = []
      | Some (Entries xs) \<Rightarrow> recentUrls s = xs
      | Some Unparsable \<Rightarrow> False)"

subsection \<open>Favicon probing\<close>

text \<open>The first accessible candidate of a list, and the candidates requested on the way to it.\<close>

fun firstAccessible :: "env \<Rightarrow> string list \<Rightarrow> string option" where
  "firstAccessible env [] = None"
| "firstAccessible env (c # cs) =
     (if isAccessible env c = Inr True then Some c else firstAccessible env cs)"

fun probed :: "env \<Rightarrow> string list \<Rightarrow> string list" where
  "probed env [] = []"
| "probed env (c # cs) = (if isAccessible env c = Inr True then [c] else c # probed env cs)"

fun noneAccessible :: "env \<Rightarrow> string list \<Rightarrow> bool" where
  "noneAccessible env [] = True"
| "noneAccessible env (c # cs) = (isAccessible env c \<noteq> Inr True \<and> noneAccessible env cs)"


subsection \<open>Compositing\<close>


section \<open>Example environments\<close>

text \<open>
  A small browser for concrete runs: it parses one URL, decides image loads by a table,
  exports a canvas to a text that grows with the number of drawing calls, and encodes every
  QR code to the same text.
\<close>

definition example_parse :: "string \<Rightarrow> url_parts option" where
  "example_parse string =
     (if string = ''https://example.com''
      then Some \<lparr>protocol = ''https:'', hostname = ''example.com''\<rparr> else None)"

definition example_export :: "canvas \<Rightarrow> string option" where
  "example_export c = Some (''data:image/png;base64,'' @ replicate (length (ops c)) CHR ''A'')"

definition example_env :: "(string \<Rightarrow> load_outcome) \<Rightarrow> canvas_support \<Rightarrow> env" where
  "example_env loads support =
     \<lparr>parseURL = example_parse,
      loadImage = (\<lambda>src crossOrigin ms. loads src),
      canvasSupport = support,
      toDataURL = example_export,
      qrToDataURL = (\<lambda>text size. Some ''data:image/png;base64,QR''),
      dateNow = 1700000000000\<rparr>"

text \<open>Image tables: nothing loads; only data URLs load; only two favicon services answer.\<close>

definition nothing_loads :: "string \<Rightarrow> load_outcome" where
  "nothing_loads src = TimedOut"

definition only_data_loads :: "string \<Rightarrow> load_outcome" where
  "only_data_loads src = (if startsWith src ''data:'' then Loaded 256 256 else LoadError)"


section \<open>Lemmas: history store\<close>

lemma take_filter_take:
  "distinct xs \<Longrightarrow> take n (filter (\<lambda>x. x \<noteq> u) (take (Suc n) xs)) = take n (filter (\<lambda>x. x \<noteq> u) xs)"
proof (induction xs arbitrary: n)
  case Nil
  then show ?case by simp
next
  case (Cons x xs)
  show ?case
  proof (cases n)
    case 0
    then show ?thesis by simp
  next
    case (Suc m)
    show ?thesis
    proof (cases "x = u")
      case True
      with Cons.prems have "u \<notin> set xs" by simp
      then have "filter (\<lambda>x. x \<noteq> u) xs = xs"
        by (auto simp: filter_id_conv)
      moreover from \<open>u \<notin> set xs\<close> have "filter (\<lambda>x. x \<noteq> u) (take (Suc m) xs) = take (Suc m) xs"
        by (auto simp: filter_id_conv dest: in_set_takeD)
      ultimately show ?thesis using True Suc by simp
    next
      case False
      with Cons Suc show ?thesis by simp
    qed
  qed
qed

lemma remdups_snoc: "remdups (xs @ [u]) = filter (\<lambda>x. x \<noteq> u) (remdups xs) @ [u]"
  by (induction xs) auto

lemma recency_step:
  "take 5 (u # filter (\<lambda>x. x \<noteq> u) (take 5 (rev (remdups acc)))) = take 5 (rev (remdups (acc @ [u])))"
proof -
  have "take 4 (filter (\<lambda>x. x \<noteq> u) (take (Suc 4) (rev (remdups acc))))
        = take 4 (filter (\<lambda>x. x \<noteq> u) (rev (remdups acc)))"
    by (rule take_filter_take) simp
  then show ?thesis
    by (simp add: remdups_snoc rev_filter)
qed

lemma recentUrls_add:
  "recentUrls (addToRecentUrls now u s)
     = \<lparr>url = u, timestamp = now\<rparr> # take 4 (filter (\<lambda>item. url item \<noteq> u) (recentUrls s))"
  by (simp add: addToRecentUrls_def Let_def)

lemma storage_add:
  "storage (addToRecentUrls now u s) = Some (Entries (recentUrls (addToRecentUrls now u s)))"
  by (simp add: addToRecentUrls_def Let_def)

lemma urls_add:
  "map url (recentUrls (addToRecentUrls now u s))
     = take 5 (u # filter (\<lambda>x. x \<noteq> u) (map url (recentUrls s)))"
  by (simp add: recentUrls_add take_map filter_map comp_def)

lemma hist_ok_add:
  assumes "distinct (map url (recentUrls s))"
  shows "hist_ok (recentUrls (addToRecentUrls now u s))"
proof -
  have "length (recentUrls (addToRecentUrls now u s)) \<le> 5"
    by (simp add: recentUrls_add)
  moreover from assms have "distinct (u # filter (\<lambda>x. x \<noteq> u) (map url (recentUrls s)))"
    by simp
  then have "distinct (map url (recentUrls (addToRecentUrls now u s)))"
    unfolding urls_add by (rule distinct_take)
  ultimately show ?thesis by (simp add: hist_ok_def)
qed

lemma recentUrls_clear: "recentUrls (clearRecentUrls s) = []"
  by (simp add: clearRecentUrls_def toast_def)

lemma storage_clear: "storage (clearRecentUrls s) = None"
  by (simp add: clearRecentUrls_def toast_def)

lemma recentUrls_load:
  "recentUrls (loadRecentUrls (initial st)) = (case st of Some (Entries xs) \<Rightarrow> xs | Some Unparsable \<Rightarrow> [] | None \<Rightarrow> [])"
  by (simp add: loadRecentUrls_def initial_def split: option.splits persisted.splits)

lemma storage_load: "storage (loadRecentUrls (initial st)) = st"
  by (simp add: loadRecentUrls_def initial_def split: option.splits persisted.splits)

lemma run_Nil: "run [] s = s"
  by (simp add: run_def)

lemma run_Cons: "run (opn # os) s = run os (hist_step opn s)"
  by (simp add: run_def)

lemma step_ok:
  assumes "hist_ok (recentUrls s)" and "store_ok (storage s)"
  shows "hist_ok (recentUrls (hist_step opn s)) \<and> store_ok (storage (hist_step opn s))"
proof (cases opn)
  case (Add u t)
  from assms(1) have "hist_ok (recentUrls (addToRecentUrls t u s))"
    by (intro hist_ok_add) (simp add: hist_ok_def)
  then show ?thesis using Add by (simp add: storage_add store_ok_def)
next
  case Clear
  then show ?thesis by (simp add: recentUrls_clear storage_clear store_ok_def hist_ok_def)
next
  case Load
  with assms(2) show ?thesis
    by (auto simp: recentUrls_load storage_load store_ok_def hist_ok_def split: option.splits persisted.splits)
qed

lemma run_ok:
  "hist_ok (recentUrls s) \<Longrightarrow> store_ok (storage s) \<Longrightarrow> hist_ok (recentUrls (run os s))"
proof (induction os arbitrary: s)
  case Nil
  then show ?case by (simp add: run_Nil)
next
  case (Cons opn os)
  from step_ok [OF Cons.prems, of opn] Cons.IH show ?case
    by (simp add: run_Cons)
qed

lemma newest_first_add:
  assumes "newest_first t xs" and "t \<le> t'"
  shows "newest_first t' (\<lparr>url = u, timestamp = t'\<rparr> # take 4 (filter (\<lambda>item. url item \<noteq> u) xs))"
proof -
  from assms(1) have bound: "\<forall>x\<in>set xs. timestamp x \<le> t" and srt: "sorted_wrt (\<ge>) (map timestamp xs)"
    by (auto simp: newest_first_def)
  from srt have "sorted_wrt (\<lambda>a b. timestamp a \<ge> timestamp b) xs"
    by (simp add: sorted_wrt_map)
  then have "sorted_wrt (\<lambda>a b. timestamp a \<ge> timestamp b) (take 4 (filter (\<lambda>item. url item \<noteq> u) xs))"
    by (intro sorted_wrt_take sorted_wrt_filter)
  moreover from bound assms(2) have "\<forall>x\<in>set (take 4 (filter (\<lambda>item. url item \<noteq> u) xs)). timestamp x \<le> t'"
    by (fastforce dest: in_set_takeD)
  ultimately show ?thesis
    by (simp add: newest_first_def sorted_wrt_map)
qed

lemma step_newest_first:
  assumes "newest_first t (recentUrls s)" and "store_newest_first t (storage s)"
    and "clock_mono t (opn # os)"
  shows "\<exists>t'. newest_first t' (recentUrls (hist_step opn s))
            \<and> store_newest_first t' (storage (hist_step opn s)) \<and> clock_mono t' os"
proof (cases opn)
  case (Add u t')
  with assms(3) have "t \<le> t'" and "clock_mono t' os" by simp_all
  with newest_first_add [OF assms(1) \<open>t \<le> t'\<close>, of u] show ?thesis
    using Add by (auto simp: recentUrls_add storage_add store_newest_first_def)
next
  case Clear
  with assms(3) show ?thesis
    by (auto simp: recentUrls_clear storage_clear store_newest_first_def newest_first_def)
next
  case Load
  with assms(2,3) show ?thesis
    by (auto simp: recentUrls_load storage_load store_newest_first_def newest_first_def
             split: option.splits persisted.splits)
qed

lemma run_newest_first:
  "newest_first t (recentUrls s) \<Longrightarrow> store_newest_first t (storage s) \<Longrightarrow> clock_mono t os
   \<Longrightarrow> sorted_wrt (\<ge>) (map timestamp (recentUrls (run os s)))"
proof (induction os arbitrary: s t)
  case Nil
  then show ?case by (simp add: run_Nil newest_first_def)
next
  case (Cons opn os)
  from step_newest_first [OF Cons.prems] obtain t' where
    "newest_first t' (recentUrls (hist_step opn s))"
    "store_newest_first t' (storage (hist_step opn s))" "clock_mono t' os"
    by blast
  then show ?case using Cons.IH by (simp add: run_Cons)
qed

lemma step_synced: "synced s \<Longrightarrow> synced (hist_step opn s)"
  by (cases opn)
     (auto simp: synced_def storage_add recentUrls_clear storage_clear recentUrls_load storage_load
           split: option.splits persisted.splits)

lemma run_recency:
  "synced s \<Longrightarrow> map url (recentUrls s) = take 5 (rev (remdups acc))
   \<Longrightarrow> map url (recentUrls (run os s)) = take 5 (rev (remdups (added os acc)))"
proof (induction os arbitrary: s acc)
  case Nil
  then show ?case by (simp add: run_Nil)
next
  case (Cons opn os)
  have sy: "synced (hist_step opn s)" using Cons.prems(1) by (rule step_synced)
  show ?case
  proof (cases opn)
    case (Add u t)
    have "map url (recentUrls (hist_step opn s)) = take 5 (rev (remdups (acc @ [u])))"
      using Add by (simp only: hist_step.simps urls_add Cons.prems(2) recency_step)
    from Cons.IH [OF sy this] show ?thesis using Add by (simp add: run_Cons)
  next
    case Clear
    have "map url (recentUrls (hist_step opn s)) = take 5 (rev (remdups []))"
      using Clear by (simp add: recentUrls_clear)
    from Cons.IH [OF sy this] show ?thesis using Clear by (simp add: run_Cons)
  next
    case Load
    have "recentUrls (hist_step opn s) = recentUrls s"
      using Cons.prems(1) Load
      by (auto simp: synced_def recentUrls_load split: option.splits persisted.splits)
    with Cons.prems(2) have "map url (recentUrls (hist_step opn s)) = take 5 (rev (remdups acc))"
      by simp
    from Cons.IH [OF sy this] show ?thesis using Load by (simp add: run_Cons)
  qed
qed

lemma add_front:
  assumes "recentUrls s = es @ rest" and "length es \<le> 4" and "\<forall>e\<in>set es. url e \<noteq> u"
  shows "\<exists>rest'. recentUrls (addToRecentUrls t u s) = \<lparr>url = u, timestamp = t\<rparr> # es @ rest'
                \<and> length es + length rest' \<le> 4"
proof -
  have "filter (\<lambda>item. url item \<noteq> u) (recentUrls s) = es @ filter (\<lambda>item. url item \<noteq> u) rest"
    using assms(1,3) by (simp add: filter_id_conv)
  then have "recentUrls (addToRecentUrls t u s)
             = \<lparr>url = u, timestamp = t\<rparr> # es @ take (4 - length es) (filter (\<lambda>item. url item \<noteq> u) rest)"
    using assms(2) by (simp add: recentUrls_add)
  moreover have "length es + length (take (4 - length es) (filter (\<lambda>item. url item \<noteq> u) rest)) \<le> 4"
    using assms(2) by simp
  ultimately show ?thesis by blast
qed

lemma six_adds:
  assumes "distinct [u1, u2, u3, u4, u5, u6]"
  shows "recentUrls (run [Add u1 t1, Add u2 t2, Add u3 t3, Add u4 t4, Add u5 t5, Add u6 t6] s)
     = [\<lparr>url = u6, timestamp = t6\<rparr>, \<lparr>url = u5, timestamp = t5\<rparr>, \<lparr>url = u4, timestamp = t4\<rparr>,
        \<lparr>url = u3, timestamp = t3\<rparr>, \<lparr>url = u2, timestamp = t2\<rparr>]"
proof -
  define s1 where "s1 = addToRecentUrls t1 u1 s"
  define s2 where "s2 = addToRecentUrls t2 u2 s1"
  define s3 where "s3 = addToRecentUrls t3 u3 s2"
  define s4 where "s4 = addToRecentUrls t4 u4 s3"
  define s5 where "s5 = addToRecentUrls t5 u5 s4"
  define s6 where "s6 = addToRecentUrls t6 u6 s5"
  define e1 where "e1 = \<lparr>url = u1, timestamp = t1\<rparr>"
  define e2 where "e2 = \<lparr>url = u2, timestamp = t2\<rparr>"
  define e3 where "e3 = \<lparr>url = u3, timestamp = t3\<rparr>"
  define e4 where "e4 = \<lparr>url = u4, timestamp = t4\<rparr>"
  define e5 where "e5 = \<lparr>url = u5, timestamp = t5\<rparr>"
  define e6 where "e6 = \<lparr>url = u6, timestamp = t6\<rparr>"
  have u: "url e1 = u1" "url e2 = u2" "url e3 = u3" "url e4 = u4" "url e5 = u5"
    by (simp_all add: e1_def e2_def e3_def e4_def e5_def)
  have d: "u1 \<noteq> u2" "u1 \<noteq> u3" "u2 \<noteq> u3" "u1 \<noteq> u4" "u2 \<noteq> u4" "u3 \<noteq> u4"
    "u1 \<noteq> u5" "u2 \<noteq> u5" "u3 \<noteq> u5" "u4 \<noteq> u5" "u2 \<noteq> u6" "u3 \<noteq> u6" "u4 \<noteq> u6" "u5 \<noteq> u6"
    using assms by simp_all
  obtain r1 where r1: "recentUrls s1 = [e1] @ r1"
    unfolding s1_def e1_def by (simp add: recentUrls_add)
  from add_front [OF r1, of u2 t2] obtain r2 where r2: "recentUrls s2 = [e2, e1] @ r2"
    unfolding s2_def e2_def using u d by auto
  from add_front [OF r2, of u3 t3] obtain r3 where r3: "recentUrls s3 = [e3, e2, e1] @ r3"
    unfolding s3_def e3_def using u d by auto
  from add_front [OF r3, of u4 t4] obtain r4 where r4: "recentUrls s4 = [e4, e3, e2, e1] @ r4"
    unfolding s4_def e4_def using u d by auto
  from add_front [OF r4, of u5 t5] have r5: "recentUrls s5 = [e5, e4, e3, e2] @ [e1]"
    unfolding s5_def e5_def using u d by auto
  from add_front [OF r5, of u6 t6] have "recentUrls s6 = [e6, e5, e4, e3, e2]"
    unfolding s6_def e6_def using u d by auto
  then show ?thesis
    by (simp add: run_Cons run_Nil s1_def s2_def s3_def s4_def s5_def s6_def
                  e2_def e3_def e4_def e5_def e6_def)
qed

section \<open>Lemmas: favicon resolver, compositor, generation\<close>

lemma probeLoop_result:
  "probeLoop env cs s =
     (firstAccessible env cs,
      s\<lparr>probes := probes s @ map (\<lambda>c. ImageRequest c True 3000) (probed env cs),
        detectedFavicon := (case firstAccessible env cs of Some c \<Rightarrow> c | None \<Rightarrow> detectedFavicon s)\<rparr>)"
proof (induction cs arbitrary: s)
  case Nil
  show ?case by simp
next
  case (Cons c cs)
  show ?case
  proof (cases "isAccessible env c")
    case (Inl e)
    then show ?thesis by (simp add: Cons.IH split: option.splits)
  next
    case (Inr b)
    then show ?thesis by (cases b) (simp_all add: Cons.IH split: option.splits)
  qed
qed

lemma firstAccessible_none: "noneAccessible env cs \<Longrightarrow> firstAccessible env cs = None"
  by (induction cs) auto

lemma detectFavicon_valid:
  assumes "parseURL env u = Some urlObj"
  shows "detectFavicon env u s =
     (Some (case firstAccessible env (faviconSources urlObj) of
              Some c \<Rightarrow> c | None \<Rightarrow> googleFavicon (hostname urlObj) ''64''),
      s\<lparr>probes := probes s @ map (\<lambda>c. ImageRequest c True 3000) (probed env (faviconSources urlObj)),
        detectedFavicon := (case firstAccessible env (faviconSources urlObj) of
              Some c \<Rightarrow> c | None \<Rightarrow> googleFavicon (hostname urlObj) ''64''),
        isDetectingLogo := False\<rparr>)"
  using assms
  by (simp add: detectFavicon_def isValidUrl_def probeLoop_result Let_def split: option.splits)



lemma createQRWithLogo_total: "\<exists>d. createQRWithLogo env qr logo = Inr d"
  by (simp add: createQRWithLogo_def split: sum.splits)

lemma createQRWithLogo_no_canvas:
  "canvasSupport env \<noteq> CanvasOK \<Longrightarrow> createQRWithLogo env qr logo = Inr qr"
  by (cases "canvasSupport env") (simp_all add: createQRWithLogo_def compose_def)

lemma createQRWithLogo_no_qr:
  "loadImage env qr (\<not> startsWith qr ''data:'') 10000 \<in> {LoadError, TimedOut, Raised}
   \<Longrightarrow> createQRWithLogo env qr logo = Inr qr"
  by (cases "canvasSupport env") (auto simp: createQRWithLogo_def compose_def loadQrImage_def)

lemma toast_frame [simp]:
  "recentUrls (toast t d v s) = recentUrls s" "storage (toast t d v s) = storage s"
  "qrCodeDataUrl (toast t d v s) = qrCodeDataUrl s"
  by (simp_all add: toast_def)

lemma detectFavicon_frame:
  "recentUrls (snd (detectFavicon env u s)) = recentUrls s \<and>
   storage (snd (detectFavicon env u s)) = storage s \<and>
   qrCodeDataUrl (snd (detectFavicon env u s)) = qrCodeDataUrl s"
proof (cases "parseURL env u")
  case None
  then show ?thesis by (simp add: detectFavicon_def isValidUrl_def)
next
  case (Some urlObj)
  then show ?thesis by (simp add: detectFavicon_valid)
qed

lemma integrateLogo_frame:
  "recentUrls (snd (integrateLogo env u qr s)) = recentUrls s \<and>
   storage (snd (integrateLogo env u qr s)) = storage s"
  using detectFavicon_frame [of env u s]
  by (auto simp: integrateLogo_def Let_def split: prod.splits sum.splits if_splits)

lemma generateQRCode_rejected:
  assumes "target = (if truthy inputUrl then the inputUrl else urlText s)"
    and "trim target = [] \<or> \<not> isValidUrl env target"
  shows "generateQRCode env inputUrl s =
           (if trim target = []
            then toast ''URL Required'' ''Please enter a URL to generate QR code'' Destructive s
            else toast ''Invalid URL'' ''Please enter a valid URL (e.g., https://example.com)''
                   Destructive s)"
proof (cases "trim target = []")
  case True
  then show ?thesis
    unfolding assms(1) by (simp add: generateQRCode_def Let_def split del: if_split)
next
  case False
  with assms(2) have "\<not> isValidUrl env target" by simp
  with False show ?thesis
    unfolding assms(1) by (simp add: generateQRCode_def Let_def split del: if_split)
qed

lemma generateQRCode_encoder_failed:
  assumes "target = (if truthy inputUrl then the inputUrl else urlText s)"
    and "trim target \<noteq> []" and "isValidUrl env target"
    and "qrToDataURL env target (qrSize s) = None"
  shows "generateQRCode env inputUrl s =
           (toast ''Generation Failed'' ''Failed to generate QR code. Please try again.''
              Destructive (s\<lparr>isGenerating := True\<rparr>))\<lparr>isGenerating := False\<rparr>"
  using assms(2-4) unfolding assms(1)
  by (simp add: generateQRCode_def Let_def split del: if_split)

lemma generateQRCode_accepted:
  assumes "target = (if truthy inputUrl then the inputUrl else urlText s)"
    and "trim target \<noteq> []" and "isValidUrl env target"
    and "qrToDataURL env target (qrSize s) = Some qr"
    and "final = (if logoEnabled s then integrateLogo env target qr (s\<lparr>isGenerating := True\<rparr>)
                  else (qr, s\<lparr>isGenerating := True\<rparr>))"
  shows "generateQRCode env inputUrl s =
           (toast ''QR Code Generated!''
              (if logoEnabled s then ''QR code with logo is ready!''
               else ''Your QR code is ready to download or share'') Default
              (if \<not> truthy inputUrl
               then addToRecentUrls (dateNow env) target ((snd final)\<lparr>qrCodeDataUrl := fst final\<rparr>)
               else (snd final)\<lparr>qrCodeDataUrl := fst final\<rparr>))\<lparr>isGenerating := False\<rparr>"
  using assms(2-4) unfolding assms(1,5)
  by (simp add: generateQRCode_def Let_def case_prod_beta split del: if_split)


lemma generateQRCode_history_frame:
  assumes "truthy inputUrl"
  shows "recentUrls (generateQRCode env inputUrl s) = recentUrls s
       \<and> storage (generateQRCode env inputUrl s) = storage s"
proof -
  define target where "target = (if truthy inputUrl then the inputUrl else urlText s)"
  consider (rejected) "trim target = [] \<or> \<not> isValidUrl env target"
    | (failed) "trim target \<noteq> []" "isValidUrl env target" "qrToDataURL env target (qrSize s) = None"
    | (accepted) qr where "trim target \<noteq> []" "isValidUrl env target"
        "qrToDataURL env target (qrSize s) = Some qr"
    by (cases "qrToDataURL env target (qrSize s)") auto
  then show ?thesis
  proof cases
    case rejected
    show ?thesis
      unfolding generateQRCode_rejected [OF target_def rejected] by simp
  next
    case failed
    show ?thesis
      unfolding generateQRCode_encoder_failed [OF target_def failed] by simp
  next
    case accepted
    define final where "final = (if logoEnabled s then integrateLogo env target qr (s\<lparr>isGenerating := True\<rparr>)
                  else (qr, s\<lparr>isGenerating := True\<rparr>))"
    have "recentUrls (snd final) = recentUrls s \<and> storage (snd final) = storage s"
      using integrateLogo_frame [of env target qr "s\<lparr>isGenerating := True\<rparr>"]
      by (simp add: final_def)
    then show ?thesis
      unfolding generateQRCode_accepted [OF target_def accepted final_def] using assms by simp
  qed
qed

lemma googleFavicon_nonempty: "googleFavicon d sz \<noteq> []"
  by (simp add: googleFavicon_def)

lemma integrateLogo_detected:
  assumes "logoFile s = None \<or> logoPreview s = []" and "autoDetectLogo s"
    and "fst (detectFavicon env u s) = Some f" and "f \<noteq> []"
    and "createQRWithLogo env qr f = Inr d"
  shows "fst (integrateLogo env u qr s) = d"
proof -
  obtain fav s' where ds: "detectFavicon env u s = (fav, s')" by (cases "detectFavicon env u s")
  with assms(3) have fav: "fav = Some f" by simp
  show ?thesis
    using assms(1,2,4,5)
    by (auto simp: integrateLogo_def ds fav Let_def)
qed

lemma subseq_take_filter: "subseq (take n (filter P xs)) xs"
proof -
  have "subseq (take n (filter P xs)) (take n (filter P xs) @ drop n (filter P xs))"
    by (rule subseq_rev_drop_many) simp
  then have "subseq (take n (filter P xs)) (filter P xs)" by simp
  moreover have "subseq (filter P xs) xs" by simp
  ultimately show ?thesis by (rule subseq_order.trans)
qed




section \<open>Verified properties: compositor\<close>




text \<open>
  Claim C8. \<open>createQRWithLogo\<close> never throws; and when there is no document, creating the
  canvas throws, there is no 2D context, or the base QR image does not load (error,
  10000 ms timer, or an exception), it returns the QR data URL it was given.
\<close>

theorem createQRWithLogo_fail_soft:
  "(\<exists>d. createQRWithLogo env qr logo = Inr d)
   \<and> (canvasSupport env \<in> {NoDocument, CreateThrows, NoContext}
        \<or> loadImage env qr (\<not> startsWith qr ''data:'') 10000 \<in> {LoadError, TimedOut, Raised}
      \<longrightarrow> createQRWithLogo env qr logo = Inr qr)"
proof -
  have "createQRWithLogo env qr logo = Inr qr"
    if "canvasSupport env \<in> {NoDocument, CreateThrows, NoContext}"
    using that by (intro createQRWithLogo_no_canvas) auto
  with createQRWithLogo_total [of env qr logo] createQRWithLogo_no_qr [of env qr logo]
  show ?thesis by blast
qed

theorem createQRWithLogo_fail_soft_witness:
  "canvasSupport (example_env only_data_loads NoContext) \<in> {NoDocument, CreateThrows, NoContext}
   \<and> createQRWithLogo (example_env only_data_loads NoContext) ''data:image/png;base64,QR''
        ''data:image/png;base64,LOGO'' = Inr ''data:image/png;base64,QR''
   \<and> loadImage (example_env nothing_loads CanvasOK) ''data:image/png;base64,QR''
        (\<not> startsWith ''data:image/png;base64,QR'' ''data:'') 10000 \<in> {LoadError, TimedOut, Raised}
   \<and> createQRWithLogo (example_env nothing_loads CanvasOK) ''data:image/png;base64,QR''
        ''data:image/png;base64,LOGO'' = Inr ''data:image/png;base64,QR''"
  using createQRWithLogo_fail_soft [of "example_env only_data_loads NoContext"
      "''data:image/png;base64,QR''" "''data:image/png;base64,LOGO''"]
    createQRWithLogo_fail_soft [of "example_env nothing_loads CanvasOK"
      "''data:image/png;base64,QR''" "''data:image/png;base64,LOGO''"]
  by (simp add: example_env_def nothing_loads_def)

section \<open>Verified properties: favicon resolver\<close>






text \<open>
  Claim C4. For a URL that parses, when no candidate loads, \<open>detectFavicon\<close> returns the
  first candidate, the favicon-service URL at size 64, and stores it as the detected
  favicon. In a generation with the logo enabled, auto-detection on and no uploaded logo,
  that URL is the logo source handed to \<open>createQRWithLogo\<close>, whose result is displayed.
\<close>

theorem detectFavicon_fallback:
  assumes "parseURL env u = Some urlObj" and "noneAccessible env (faviconSources urlObj)"
  shows "fst (detectFavicon env u s) = Some (googleFavicon (hostname urlObj) ''64'')
       \<and> googleFavicon (hostname urlObj) ''64''
           = ''https://www.google.com/s2/favicons?domain='' @ hostname urlObj @ ''&sz=64''
       \<and> hd (faviconSources urlObj) = googleFavicon (hostname urlObj) ''64''
       \<and> detectedFavicon (snd (detectFavicon env u s)) = googleFavicon (hostname urlObj) ''64''
       \<and> (u = (if truthy inputUrl then the inputUrl else urlText s) \<and> trim u \<noteq> []
            \<and> qrToDataURL env u (qrSize s) = Some qr
            \<and> logoEnabled s \<and> autoDetectLogo s \<and> (logoFile s = None \<or> logoPreview s = [])
          \<longrightarrow> createQRWithLogo env qr (googleFavicon (hostname urlObj) ''64'')
                = Inr (qrCodeDataUrl (generateQRCode env inputUrl s)))"
proof -
  have res: "fst (detectFavicon env u s') = Some (googleFavicon (hostname urlObj) ''64'')" for s'
    using assms by (simp add: detectFavicon_valid firstAccessible_none)
  have det: "detectedFavicon (snd (detectFavicon env u s)) = googleFavicon (hostname urlObj) ''64''"
    using assms by (simp add: detectFavicon_valid firstAccessible_none)
  have hd: "hd (faviconSources urlObj) = googleFavicon (hostname urlObj) ''64''"
    by (simp add: faviconSources_def Let_def)
  have gen: "createQRWithLogo env qr (googleFavicon (hostname urlObj) ''64'')
                = Inr (qrCodeDataUrl (generateQRCode env inputUrl s))"
    if t: "u = (if truthy inputUrl then the inputUrl else urlText s)" and tr: "trim u \<noteq> []"
      and q: "qrToDataURL env u (qrSize s) = Some qr"
      and l: "logoEnabled s" "autoDetectLogo s" "logoFile s = None \<or> logoPreview s = []"
  proof -
    define s1 where "s1 = s\<lparr>isGenerating := True\<rparr>"
    define final where "final = (if logoEnabled s then integrateLogo env u qr (s\<lparr>isGenerating := True\<rparr>)
                  else (qr, s\<lparr>isGenerating := True\<rparr>))"
    obtain d where d: "createQRWithLogo env qr (googleFavicon (hostname urlObj) ''64'') = Inr d"
      using createQRWithLogo_total by blast
    have valid: "isValidUrl env u" using assms(1) by (simp add: isValidUrl_def)
    have "fst (integrateLogo env u qr s1) = d"
      using l(2,3) res [of s1] googleFavicon_nonempty d
      by (intro integrateLogo_detected) (simp_all add: s1_def)
    then have "fst final = d" using l(1) by (simp add: final_def s1_def)
    then have "qrCodeDataUrl (generateQRCode env inputUrl s) = d"
      unfolding generateQRCode_accepted [OF t tr valid q final_def]
      by (simp add: toast_def addToRecentUrls_def Let_def)
    with d show ?thesis by simp
  qed
  have g: "googleFavicon (hostname urlObj) ''64''
           = ''https://www.google.com/s2/favicons?domain='' @ hostname urlObj @ ''&sz=64''"
    by (simp add: googleFavicon_def)
  from res [of s] g det hd gen show ?thesis
    by blast
qed

theorem detectFavicon_fallback_witness:
  "parseURL (example_env nothing_loads CanvasOK) ''https://example.com''
     = Some \<lparr>protocol = ''https:'', hostname = ''example.com''\<rparr>
   \<and> noneAccessible (example_env nothing_loads CanvasOK)
       (faviconSources \<lparr>protocol = ''https:'', hostname = ''example.com''\<rparr>)
   \<and> trim ''https://example.com'' \<noteq> []
   \<and> fst (detectFavicon (example_env nothing_loads CanvasOK) ''https://example.com''
            ((initial None)\<lparr>urlText := ''https://example.com'', logoEnabled := True\<rparr>))
       = Some ''https://www.google.com/s2/favicons?domain=example.com&sz=64''
   \<and> createQRWithLogo (example_env nothing_loads CanvasOK) ''data:image/png;base64,QR''
        ''https://www.google.com/s2/favicons?domain=example.com&sz=64''
       = Inr (qrCodeDataUrl (generateQRCode (example_env nothing_loads CanvasOK) None
               ((initial None)\<lparr>urlText := ''https://example.com'', logoEnabled := True\<rparr>)))"
  using detectFavicon_fallback [of "example_env nothing_loads CanvasOK" "''https://example.com''"
      "\<lparr>protocol = ''https:'', hostname = ''example.com''\<rparr>"
      "(initial None)\<lparr>urlText := ''https://example.com'', logoEnabled := True\<rparr>"
      None "''data:image/png;base64,QR''"]
  by (simp add: example_env_def example_parse_def nothing_loads_def isAccessible_def
                faviconSources_def googleFavicon_def initial_def trim_def isWhiteSpace_def)

section \<open>Verified properties: generation\<close>

text \<open>
  Claim C2. When the URL to encode (the argument, or the input field when there is no
  argument) is empty or only white space, or \<open>new URL\<close> rejects it, \<open>generateQRCode\<close> shows
  one destructive notice and changes nothing else: the displayed QR data URL, the history
  list and the persisted history stay as they were.
\<close>

theorem generateQRCode_rejects_invalid:
  assumes "target = (if truthy inputUrl then the inputUrl else urlText s)"
    and "trim target = [] \<or> \<not> isValidUrl env target"
  shows "generateQRCode env inputUrl s =
           s\<lparr>toasts := toasts s @
               [if trim target = []
                then \<lparr>title = ''URL Required'',
                      description = ''Please enter a URL to generate QR code'',
                      variant = Destructive\<rparr>
                else \<lparr>title = ''Invalid URL'',
                      description = ''Please enter a valid URL (e.g., https://example.com)'',
                      variant = Destructive\<rparr>]\<rparr>
       \<and> qrCodeDataUrl (generateQRCode env inputUrl s) = qrCodeDataUrl s
       \<and> recentUrls (generateQRCode env inputUrl s) = recentUrls s
       \<and> storage (generateQRCode env inputUrl s) = storage s"
  unfolding generateQRCode_rejected [OF assms]
  by (simp add: toast_def)

theorem generateQRCode_rejects_invalid_witness:
  "trim ''not-a-url'' \<noteq> []
   \<and> \<not> isValidUrl (example_env nothing_loads CanvasOK) ''not-a-url''
   \<and> generateQRCode (example_env nothing_loads CanvasOK) None
        ((initial None)\<lparr>urlText := ''not-a-url''\<rparr>)
       = (initial None)\<lparr>urlText := ''not-a-url'',
            toasts := [\<lparr>title = ''Invalid URL'',
                        description = ''Please enter a valid URL (e.g., https://example.com)'',
                        variant = Destructive\<rparr>]\<rparr>
   \<and> trim [CHR '' '', CHR 0x09, CHR '' ''] = []
   \<and> generateQRCode (example_env nothing_loads CanvasOK) (Some [CHR '' '', CHR 0x09, CHR '' ''])
        (initial None)
       = (initial None)\<lparr>toasts := [\<lparr>title = ''URL Required'',
                        description = ''Please enter a URL to generate QR code'',
                        variant = Destructive\<rparr>]\<rparr>"
  using generateQRCode_rejects_invalid [of "''not-a-url''" None
      "(initial None)\<lparr>urlText := ''not-a-url''\<rparr>" "example_env nothing_loads CanvasOK"]
    generateQRCode_rejects_invalid [of "[CHR '' '', CHR 0x09, CHR '' '']"
      "Some [CHR '' '', CHR 0x09, CHR '' '']" "initial None" "example_env nothing_loads CanvasOK"]
  by (simp add: isValidUrl_def example_env_def example_parse_def trim_def isWhiteSpace_def
                initial_def)

text \<open>
  Claim C6. In a generation that succeeds (the URL is not blank, parses, and the QR encoder
  returns), the new image is displayed either way; with an explicit non-empty \<open>inputUrl\<close>
  argument, as when a history entry is selected, the history list and its persisted copy
  are left as they were; without one, the URL is added to the history.
\<close>

theorem generateQRCode_history_only_on_submission:
  assumes "target = (if truthy inputUrl then the inputUrl else urlText s)"
    and "trim target \<noteq> []" and "isValidUrl env target"
    and "qrToDataURL env target (qrSize s) = Some qr"
  shows "qrCodeDataUrl (generateQRCode env inputUrl s) =
           (if logoEnabled s then fst (integrateLogo env target qr (s\<lparr>isGenerating := True\<rparr>))
            else qr)
       \<and> (truthy inputUrl \<longrightarrow>
            recentUrls (generateQRCode env inputUrl s) = recentUrls s
            \<and> storage (generateQRCode env inputUrl s) = storage s)
       \<and> (\<not> truthy inputUrl \<longrightarrow>
            recentUrls (generateQRCode env inputUrl s) =
              \<lparr>url = target, timestamp = dateNow env\<rparr>
              # take 4 (filter (\<lambda>item. url item \<noteq> target) (recentUrls s))
            \<and> storage (generateQRCode env inputUrl s) =
                Some (Entries (recentUrls (generateQRCode env inputUrl s))))"
proof -
  define final where "final = (if logoEnabled s then integrateLogo env target qr (s\<lparr>isGenerating := True\<rparr>)
                  else (qr, s\<lparr>isGenerating := True\<rparr>))"
  note gen = generateQRCode_accepted [OF assms final_def]
  have frame: "recentUrls (snd final) = recentUrls s"
    using integrateLogo_frame [of env target qr "s\<lparr>isGenerating := True\<rparr>"]
    by (simp add: final_def)
  have img: "qrCodeDataUrl (generateQRCode env inputUrl s) = fst final"
    unfolding gen by (simp add: toast_def addToRecentUrls_def Let_def)
  have shown: "fst final = (if logoEnabled s
      then fst (integrateLogo env target qr (s\<lparr>isGenerating := True\<rparr>)) else qr)"
    by (simp add: final_def)
  have direct: "recentUrls (generateQRCode env inputUrl s) =
              \<lparr>url = target, timestamp = dateNow env\<rparr>
              # take 4 (filter (\<lambda>item. url item \<noteq> target) (recentUrls s))
            \<and> storage (generateQRCode env inputUrl s) =
                Some (Entries (recentUrls (generateQRCode env inputUrl s)))"
    if "\<not> truthy inputUrl"
    unfolding gen using that frame by (simp add: recentUrls_add storage_add)
  from img shown generateQRCode_history_frame [of inputUrl env s] direct
  show ?thesis by simp
qed

theorem generateQRCode_history_only_on_submission_witness:
  "trim ''https://example.com'' \<noteq> []
   \<and> isValidUrl (example_env nothing_loads CanvasOK) ''https://example.com''
   \<and> qrToDataURL (example_env nothing_loads CanvasOK) ''https://example.com'' ''256''
       = Some ''data:image/png;base64,QR''
   \<and> truthy (Some ''https://example.com'')
   \<and> qrCodeDataUrl (generateQRCode (example_env nothing_loads CanvasOK)
        (Some ''https://example.com'') (initial None)) = ''data:image/png;base64,QR''
   \<and> recentUrls (generateQRCode (example_env nothing_loads CanvasOK)
        (Some ''https://example.com'') (initial None)) = []
   \<and> storage (generateQRCode (example_env nothing_loads CanvasOK)
        (Some ''https://example.com'') (initial None)) = None
   \<and> \<not> truthy None
   \<and> qrCodeDataUrl (generateQRCode (example_env nothing_loads CanvasOK) None
        ((initial None)\<lparr>urlText := ''https://example.com''\<rparr>)) = ''data:image/png;base64,QR''
   \<and> recentUrls (generateQRCode (example_env nothing_loads CanvasOK) None
        ((initial None)\<lparr>urlText := ''https://example.com''\<rparr>))
       = [\<lparr>url = ''https://example.com'', timestamp = 1700000000000\<rparr>]"
  using generateQRCode_history_only_on_submission [of "''https://example.com''"
      "Some ''https://example.com''" "initial None" "example_env nothing_loads CanvasOK"
      "''data:image/png;base64,QR''"]
    generateQRCode_history_only_on_submission [of "''https://example.com''" None
      "(initial None)\<lparr>urlText := ''https://example.com''\<rparr>"
      "example_env nothing_loads CanvasOK" "''data:image/png;base64,QR''"]
  by (simp add: isValidUrl_def example_env_def example_parse_def trim_def isWhiteSpace_def
                initial_def)

section \<open>Verified properties: history store\<close>

text \<open>
  Claim C7. After \<open>addToRecentUrls\<close> the list is the new entry, with the current clock
  reading, followed by at most four of the old entries with another URL. So the added URL
  occurs exactly once, at the front, with the latest timestamp, whether or not it was in
  the list before; the list has at most five entries and is what is persisted.
\<close>

theorem addToRecentUrls_front_once:
  "recentUrls (addToRecentUrls now u s) =
     \<lparr>url = u, timestamp = now\<rparr> # take 4 (filter (\<lambda>item. url item \<noteq> u) (recentUrls s))
   \<and> hd (recentUrls (addToRecentUrls now u s)) = \<lparr>url = u, timestamp = now\<rparr>
   \<and> length (filter (\<lambda>item. url item = u) (recentUrls (addToRecentUrls now u s))) = 1
   \<and> length (recentUrls (addToRecentUrls now u s)) \<le> 5
   \<and> storage (addToRecentUrls now u s) = Some (Entries (recentUrls (addToRecentUrls now u s)))"
proof -
  have "filter (\<lambda>item. url item = u) (take 4 (filter (\<lambda>item. url item \<noteq> u) (recentUrls s))) = []"
    by (auto simp: filter_empty_conv dest: in_set_takeD)
  then have "length (filter (\<lambda>item. url item = u) (recentUrls (addToRecentUrls now u s))) = 1"
    by (simp add: recentUrls_add)
  then show ?thesis
    by (simp add: recentUrls_add storage_add)
qed

text \<open>
  Claim C10. The entries that \<open>addToRecentUrls\<close> keeps behind the new one are old entries,
  unchanged and in their old order: they are the first four of the old entries with
  another URL, so only entries with the added URL and entries at the tail are dropped.
\<close>

theorem addToRecentUrls_keeps_old_entries:
  "tl (recentUrls (addToRecentUrls now u s))
     = take 4 (filter (\<lambda>item. url item \<noteq> u) (recentUrls s))
   \<and> subseq (tl (recentUrls (addToRecentUrls now u s))) (recentUrls s)
   \<and> filter (\<lambda>item. url item \<noteq> u) (recentUrls s)
       = tl (recentUrls (addToRecentUrls now u s))
         @ drop 4 (filter (\<lambda>item. url item \<noteq> u) (recentUrls s))"
  by (simp add: recentUrls_add subseq_take_filter)

text \<open>
  Claim C3. Starting from a list and a persisted record with at most five entries and no
  URL twice, every sequence of additions, clearings and page loads leaves such a list.
  If the timestamps fall from front to back and the clock readings of the additions do not
  go back, the timestamps still fall from front to back. From the first start of the
  component, the URLs listed are the five most recently added different URLs since the
  last clearing, newest first. Six additions of different URLs leave exactly the last
  five, newest first.
\<close>

theorem recentUrls_invariant:
  assumes "hist_ok (recentUrls s)" and "store_ok (storage s)"
  shows "length (recentUrls (run os s)) \<le> 5
       \<and> distinct (map url (recentUrls (run os s)))
       \<and> (newest_first t (recentUrls s) \<and> store_newest_first t (storage s) \<and> clock_mono t os
            \<longrightarrow> sorted_wrt (\<ge>) (map timestamp (recentUrls (run os s))))
       \<and> map url (recentUrls (run os (initial None))) = take 5 (rev (remdups (added os [])))
       \<and> (distinct [u1, u2, u3, u4, u5, u6] \<longrightarrow>
            recentUrls (run [Add u1 t1, Add u2 t2, Add u3 t3, Add u4 t4, Add u5 t5, Add u6 t6] s)
              = [\<lparr>url = u6, timestamp = t6\<rparr>, \<lparr>url = u5, timestamp = t5\<rparr>,
                 \<lparr>url = u4, timestamp = t4\<rparr>, \<lparr>url = u3, timestamp = t3\<rparr>,
                 \<lparr>url = u2, timestamp = t2\<rparr>])"
proof -
  from run_ok [OF assms, of os]
  have "length (recentUrls (run os s)) \<le> 5" "distinct (map url (recentUrls (run os s)))"
    by (simp_all add: hist_ok_def)
  moreover have "map url (recentUrls (run os (initial None))) = take 5 (rev (remdups (added os [])))"
    by (rule run_recency) (simp_all add: synced_def initial_def)
  ultimately show ?thesis
    using run_newest_first [of t s os] six_adds [of u1 u2 u3 u4 u5 u6 t1 t2 t3 t4 t5 t6 s]
    by blast
qed

theorem recentUrls_invariant_witness:
  "hist_ok (recentUrls (initial None)) \<and> store_ok (storage (initial None))
   \<and> newest_first 0 (recentUrls (initial None)) \<and> store_newest_first 0 (storage (initial None))
   \<and> clock_mono 0 [Add ''a'' 1, Add ''b'' 2, Add ''a'' 3, Load, Add ''c'' 4]
   \<and> length (recentUrls (run [Add ''a'' 1, Add ''b'' 2, Add ''a'' 3, Load, Add ''c'' 4]
        (initial None))) \<le> 5
   \<and> distinct (map url (recentUrls (run [Add ''a'' 1, Add ''b'' 2, Add ''a'' 3, Load, Add ''c'' 4]
        (initial None))))
   \<and> sorted_wrt (\<ge>) (map timestamp (recentUrls
        (run [Add ''a'' 1, Add ''b'' 2, Add ''a'' 3, Load, Add ''c'' 4] (initial None))))
   \<and> map url (recentUrls (run [Add ''a'' 1, Add ''b'' 2, Add ''a'' 3, Load, Add ''c'' 4]
        (initial None))) = [''c'', ''a'', ''b'']
   \<and> distinct [''u1'', ''u2'', ''u3'', ''u4'', ''u5'', ''u6'']
   \<and> recentUrls (run [Add ''u1'' 1, Add ''u2'' 2, Add ''u3'' 3, Add ''u4'' 4, Add ''u5'' 5,
        Add ''u6'' 6] (initial None))
       = [\<lparr>url = ''u6'', timestamp = 6\<rparr>, \<lparr>url = ''u5'', timestamp = 5\<rparr>,
          \<lparr>url = ''u4'', timestamp = 4\<rparr>, \<lparr>url = ''u3'', timestamp = 3\<rparr>,
          \<lparr>url = ''u2'', timestamp = 2\<rparr>]"
  using recentUrls_invariant [of "initial None"
      "[Add ''a'' 1, Add ''b'' 2, Add ''a'' 3, Load, Add ''c'' 4]" 0
      "''u1''" "''u2''" "''u3''" "''u4''" "''u5''" "''u6''" 1 2 3 4 5 6]
  by (simp add: hist_ok_def store_ok_def newest_first_def store_newest_first_def initial_def)


end
